theory Spec2Isabelle
  imports Main
begin

section \<open>Text as the interpreter sees it\<close>

text \<open>
  A Python \<^verbatim>\<open>str\<close> is a sequence of code points. The model writes it as a
  \<^typ>\<open>string\<close> and reads each \<^typ>\<open>char\<close> as the code point of the same number
  (0 to 255), so every string of the model is a text that \<^verbatim>\<open>assemble\<close> can receive.
  Code points above 255 are outside the model.

  The three character classes below are the ones the interpreter uses for a \<^verbatim>\<open>str\<close>
  pattern without flags, cut down to code points up to 255:
  \<^verbatim>\<open>\s\<close> and \<^verbatim>\<open>str.strip\<close> use \<^verbatim>\<open>str.isspace\<close>; \<^verbatim>\<open>\w\<close> is \<^verbatim>\<open>str.isalnum\<close> or the underscore;
  \<^verbatim>\<open>\d\<close> is a decimal digit.
\<close>

definition is_space :: "char \<Rightarrow> bool" where
  "is_space c =
     (let n = (of_char c :: nat)
      in (9 \<le> n \<and> n \<le> 13) \<or> (28 \<le> n \<and> n \<le> 32) \<or> n = 133 \<or> n = 160)"

definition is_digit :: "char \<Rightarrow> bool" where
  "is_digit c = (let n = (of_char c :: nat) in 48 \<le> n \<and> n \<le> 57)"

definition is_alnum :: "char \<Rightarrow> bool" where
  "is_alnum c =
     (let n = (of_char c :: nat)
      in (48 \<le> n \<and> n \<le> 57) \<or> (65 \<le> n \<and> n \<le> 90) \<or> (97 \<le> n \<and> n \<le> 122)
         \<or> n = 170 \<or> n = 178 \<or> n = 179 \<or> n = 181 \<or> n = 185 \<or> n = 186
         \<or> (188 \<le> n \<and> n \<le> 190) \<or> (192 \<le> n \<and> n \<le> 214)
         \<or> (216 \<le> n \<and> n \<le> 246) \<or> 248 \<le> n)"

definition is_word :: "char \<Rightarrow> bool" where
  "is_word c = (is_alnum c \<or> c = CHR ''_'')"

text \<open>The line boundaries of \<^verbatim>\<open>str.splitlines\<close> (up to code point 255).\<close>

definition is_linebreak :: "char \<Rightarrow> bool" where
  "is_linebreak c =
     (let n = (of_char c :: nat) in (10 \<le> n \<and> n \<le> 13) \<or> (28 \<le> n \<and> n \<le> 30) \<or> n = 133)"

text \<open>\<^verbatim>\<open>text.strip()\<close>: whitespace removed at both ends.\<close>

definition strip :: "string \<Rightarrow> string" where
  "strip s = rev (dropWhile is_space (rev (dropWhile is_space s)))"

text \<open>
  \<^verbatim>\<open>text.splitlines()\<close>: the line boundaries are dropped, a carriage return followed by
  a line feed is one boundary, and a boundary at the very end opens no further line.
\<close>

fun splitlines :: "string \<Rightarrow> string list" where
  "splitlines [] = []"
| "splitlines [c] = (if is_linebreak c then [[]] else [[c]])"
| "splitlines (c # d # cs) =
     (if c = CHR 0x0D \<and> d = CHR 0x0A then [] # splitlines cs
      else if is_linebreak c then [] # splitlines (d # cs)
      else (case splitlines (d # cs) of
              [] \<Rightarrow> [[c]]
            | l # ls \<Rightarrow> (c # l) # ls))"

text \<open>\<^verbatim>\<open>"\n".join(xs)\<close>.\<close>

fun join :: "string list \<Rightarrow> string" where
  "join [] = []"
| "join [x] = x"
| "join (x # y # ys) = x @ CHR 0x0A # join (y # ys)"

text \<open>
  \<^verbatim>\<open>re.sub(r";.*", "", text)\<close>: from each semicolon up to, and not including, the next
  line feed (the dot matches every character but the line feed). The flag says whether
  the scan is inside such a match.
\<close>

fun sub_comment :: "bool \<Rightarrow> string \<Rightarrow> string" where
  "sub_comment in_comment [] = []"
| "sub_comment in_comment (c # cs) =
     (if c = CHR 0x0A then c # sub_comment False cs
      else if in_comment \<or> c = CHR '';'' then sub_comment True cs
      else c # sub_comment False cs)"

definition strip_comments :: "string \<Rightarrow> string" where
  "strip_comments text = sub_comment False text"

section \<open>Regular expressions\<close>

text \<open>
  The patterns of the module are regular expressions of the interpreter's \<^verbatim>\<open>re\<close>
  library, matched with \<^verbatim>\<open>re.fullmatch\<close>. The model has them as syntax trees of the
  fragment below, which holds every construct the module itself writes and the start
  anchor \<^verbatim>\<open>^\<close>.

  An argument grammar of an Instruction is, in the model, the tree of a grammar given as
  pattern text (a \<^verbatim>\<open>str\<close>) that is a regular expression of this fragment on its own;
  pasted between the parentheses \<^verbatim>\<open>__init__\<close> puts around it, such a text reads as the same
  tree. Outside the model are: an argument given as a compiled pattern (the f-string
  pastes its \<^verbatim>\<open>repr\<close>), and grammar texts with word-boundary assertions (\<^verbatim>\<open>\b\<close>, \<^verbatim>\<open>\B\<close>),
  look-ahead or look-behind, back-references, inline flags, or unbalanced parentheses.
  Every statement below about "every argument grammar" is about the grammars of the
  fragment only.

  \<^item> \<open>Chr c\<close>: the (escaped) literal character; \<open>Dot\<close>: \<^verbatim>\<open>.\<close>; \<open>Space\<close>, \<open>Word\<close>,
    \<open>Digit\<close>: \<^verbatim>\<open>\s\<close>, \<^verbatim>\<open>\w\<close>, \<^verbatim>\<open>\d\<close>; \<open>Or a b\<close>: the alternation \<^verbatim>\<open>(?:a|b)\<close> of two
    one-character items.
  \<^item> \<open>Eps\<close>: the empty pattern (as in \<^verbatim>\<open>(?:)\<close>); \<open>Bol\<close>: \<^verbatim>\<open>^\<close>; \<open>Seq\<close>: juxtaposition;
    \<open>Alt r s\<close>: \<^verbatim>\<open>(?:r|s)\<close>; \<open>Star a\<close>: the greedy \<^verbatim>\<open>a*\<close> of a one-character item;
    \<open>Group r\<close>: the capturing \<^verbatim>\<open>(r)\<close>.
\<close>

datatype atom = Chr char | Dot | Space | Word | Digit | Or atom atom

datatype regex =
    Eps
  | Bol
  | Atom atom
  | Seq regex regex
  | Alt regex regex
  | Star atom
  | Group regex

fun amatch :: "atom \<Rightarrow> char \<Rightarrow> bool" where
  "amatch (Chr c) x = (x = c)"
| "amatch Dot x = (x \<noteq> CHR 0x0A)"
| "amatch Space x = is_space x"
| "amatch Word x = is_word x"
| "amatch Digit x = is_digit x"
| "amatch (Or a b) x = (amatch a x \<or> amatch b x)"

text \<open>The number of capturing groups of a pattern (\<^verbatim>\<open>re.compile(p).groups\<close>).\<close>

fun ngroups :: "regex \<Rightarrow> nat" where
  "ngroups Eps = 0"
| "ngroups Bol = 0"
| "ngroups (Atom a) = 0"
| "ngroups (Seq r s) = ngroups r + ngroups s"
| "ngroups (Alt r s) = ngroups r + ngroups s"
| "ngroups (Star a) = 0"
| "ngroups (Group r) = Suc (ngroups r)"

text \<open>
  The texts a greedy \<^verbatim>\<open>a*\<close> can leave unread, in the order the engine tries them:
  the longest run first, then one character less each time.
\<close>

fun star_rests :: "atom \<Rightarrow> string \<Rightarrow> string list" where
  "star_rests a [] = [[]]"
| "star_rests a (x # xs) = (if amatch a x then star_rests a xs @ [x # xs] else [x # xs])"

text \<open>
  The backtracking matcher. \<open>rmatch r bos s\<close> lists every way \<open>r\<close> matches a prefix of
  \<open>s\<close>, in the order the engine tries them, each with the group texts (\<open>None\<close>: the
  group took no part, as in \<^verbatim>\<open>Match.groups()\<close>) and the text left unread. \<open>bos\<close> says
  that \<open>s\<close> starts at the beginning of the subject line. Groups are numbered by their
  opening parenthesis, so an enclosing group comes before the groups inside it.
\<close>

type_synonym groups = "string option list"

fun rmatch :: "regex \<Rightarrow> bool \<Rightarrow> string \<Rightarrow> (groups \<times> string) list" where
  "rmatch Eps bos s = [([], s)]"
| "rmatch Bol bos s = (if bos then [([], s)] else [])"
| "rmatch (Atom a) bos s =
     (case s of [] \<Rightarrow> [] | x # xs \<Rightarrow> if amatch a x then [([], xs)] else [])"
| "rmatch (Seq r1 r2) bos s =
     concat (map (\<lambda>(g1, s1).
                map (\<lambda>(g2, s2). (g1 @ g2, s2))
                    (rmatch r2 (bos \<and> length s1 = length s) s1))
             (rmatch r1 bos s))"
| "rmatch (Alt r1 r2) bos s =
     map (\<lambda>(g, s'). (g @ replicate (ngroups r2) None, s')) (rmatch r1 bos s)
     @ map (\<lambda>(g, s'). (replicate (ngroups r1) None @ g, s')) (rmatch r2 bos s)"
| "rmatch (Star a) bos s = map (\<lambda>s'. ([], s')) (star_rests a s)"
| "rmatch (Group r) bos s =
     map (\<lambda>(g, s'). (Some (take (length s - length s') s) # g, s')) (rmatch r bos s)"

text \<open>
  \<^verbatim>\<open>re.fullmatch(p, line)\<close>: the first way to match that leaves nothing unread; the
  value is \<^verbatim>\<open>Match.groups()\<close>, or \<open>None\<close> when there is no match.
\<close>

fun first_full :: "(groups \<times> string) list \<Rightarrow> groups option" where
  "first_full [] = None"
| "first_full ((g, rest) # ms) = (if rest = [] then Some g else first_full ms)"

definition fullmatch :: "regex \<Rightarrow> string \<Rightarrow> groups option" where
  "fullmatch p line = first_full (rmatch p True line)"

text \<open>A pattern without \<^verbatim>\<open>^\<close>: what it matches does not depend on what stands before.\<close>

fun anchor_free :: "regex \<Rightarrow> bool" where
  "anchor_free Eps = True"
| "anchor_free Bol = False"
| "anchor_free (Atom a) = True"
| "anchor_free (Seq r s) = (anchor_free r \<and> anchor_free s)"
| "anchor_free (Alt r s) = (anchor_free r \<and> anchor_free s)"
| "anchor_free (Star a) = True"
| "anchor_free (Group r) = anchor_free r"

text \<open>\<^verbatim>\<open>re.escape(s)\<close> as a pattern: the characters of \<open>s\<close>, each taken literally.\<close>

fun escape :: "string \<Rightarrow> regex" where
  "escape [] = Eps"
| "escape (c # cs) = Seq (Atom (Chr c)) (escape cs)"

section \<open>Exceptions and results\<close>

text \<open>
  \<open>AssemblerError\<close> carries the message; the four messages of the module are the four
  constructors of \<open>cause\<close> (named as the specification names the causes), with the
  1-based line number where the message has one. \<open>TypeError\<close> and \<open>AttributeError\<close>
  are the interpreter's; \<open>Raised\<close> is any other exception a formatter may raise.
\<close>

datatype cause =
    EmptyInput
  | MultipleLabelsOneLine
  | StatementOutsideSection nat
  | InvalidSyntax nat

datatype exn = AssemblerError cause | TypeError | AttributeError | Raised string

datatype assembled = Text string | Bytes "nat list"

section \<open>Instruction, InstructionSet, Assembler\<close>

text \<open>
  A formatter is a callable of the caller: it gets the group texts (or the section
  name) and returns a text or raises. In these records it is a function, that is, a
  callable without state; the engine with callables that read and write state comes
  further down. \<open>arguments\<close> holds the trees of the argument grammars (see above).
\<close>

record instruction =
  mnemonic :: string
  arguments :: "regex list"
  formatter :: "groups \<Rightarrow> exn + string"

text \<open>
  \<^verbatim>\<open>"(?:" + r'\s*,\s*'.join(f"({arg_syntax})" for arg_syntax in arguments) + ")"\<close>
\<close>

definition comma :: regex where
  "comma = Seq (Star Space) (Seq (Atom (Chr CHR '','')) (Star Space))"

fun arguments_regex :: "regex list \<Rightarrow> regex" where
  "arguments_regex [] = Eps"
| "arguments_regex [g] = Group g"
| "arguments_regex (g # h # gs) = Seq (Group g) (Seq comma (arguments_regex (h # gs)))"

text \<open>
  \<^verbatim>\<open>fr"(?:\s*{re.escape(mnemonic)}\s*{arguments_regex}\s*)"\<close>, assigned once by
  \<^verbatim>\<open>__init__\<close> from the two fields.
\<close>

definition pattern_str :: "instruction \<Rightarrow> regex" where
  "pattern_str i =
     Seq (Star Space)
       (Seq (escape (mnemonic i))
         (Seq (Star Space)
           (Seq (arguments_regex (arguments i)) (Star Space))))"

definition pattern :: "instruction \<Rightarrow> regex" where
  "pattern i = pattern_str i"

definition format :: "instruction \<Rightarrow> groups \<Rightarrow> exn + string" where
  "format i args = formatter i args"

record instruction_set =
  instructions :: "instruction list"
  section_start_formatter :: "string \<Rightarrow> exn + string"
  section_end_formatter :: "string \<Rightarrow> exn + string"

record assembler =
  instruction_set :: instruction_set
  start_formatter :: string
  end_formatter :: string

section \<open>The label pass\<close>

text \<open>
  Line 59: \<^verbatim>\<open>\s*((?:_|\w)(?:_|\w|\d)*)\s*:(.*)\<close>, and line 72, the same with \<^verbatim>\<open>\s*\<close>
  after the colon.
\<close>

definition ident :: regex where
  "ident =
     Seq (Atom (Or (Chr CHR ''_'') Word)) (Star (Or (Chr CHR ''_'') (Or Word Digit)))"

definition label_prefix :: regex where
  "label_prefix =
     Seq (Star Space)
       (Seq (Group ident)
         (Seq (Star Space)
           (Seq (Atom (Chr CHR '':'')) (Group (Star Dot)))))"

definition bare_label :: regex where
  "bare_label =
     Seq (Star Space)
       (Seq (Group ident)
         (Seq (Star Space)
           (Seq (Atom (Chr CHR '':'')) (Star Space))))"

text \<open>
  One line of the first loop: the lines it appends to \<^verbatim>\<open>new_text\<close>, or the error.
  The two groups of line 59 take part in every match, so the last case is the
  \<^verbatim>\<open>else\<close> branch alone.
\<close>

definition split_label :: "string \<Rightarrow> exn + string list" where
  "split_label line =
     (case fullmatch label_prefix line of
        Some [_, Some statement] \<Rightarrow>
          if fullmatch label_prefix statement \<noteq> None
          then Inl (AssemblerError MultipleLabelsOneLine)
          else Inr [take (length line - length statement) line, statement]
      | _ \<Rightarrow> Inr [line])"

fun label_pass :: "string list \<Rightarrow> exn + string list" where
  "label_pass [] = Inr []"
| "label_pass (line # lines) =
     (case split_label line of
        Inl e \<Rightarrow> Inl e
      | Inr new \<Rightarrow>
          (case label_pass lines of
             Inl e \<Rightarrow> Inl e
           | Inr new_text \<Rightarrow> Inr (new @ new_text)))"

section \<open>The main pass\<close>

record state =
  result :: "string list"
  sections_started :: nat
  last_section_name :: string

definition initial :: state where
  "initial = \<lparr>result = [], sections_started = 0, last_section_name = []\<rparr>"

text \<open>The name of the section when line 72 matches (group 1 takes part in every match).\<close>

definition section_label :: "string \<Rightarrow> string option" where
  "section_label line =
     (case fullmatch bare_label line of
        Some (Some name # _) \<Rightarrow> Some name
      | _ \<Rightarrow> None)"

text \<open>
  Lines 87 to 94 without the section check: the first instruction of the table whose
  pattern matches the whole line, with the groups of the match.
\<close>

fun dispatch :: "instruction list \<Rightarrow> string \<Rightarrow> (instruction \<times> groups) option" where
  "dispatch [] line = None"
| "dispatch (i # is) line =
     (case fullmatch (pattern i) line of
        Some g \<Rightarrow> Some (i, g)
      | None \<Rightarrow> dispatch is line)"

text \<open>
  The body of the second loop for one line; \<open>line_number\<close> is the 0-based index of
  \<^verbatim>\<open>enumerate\<close>. At a section boundary both formatters get the name matched on this
  line (\<^verbatim>\<open>s.groups()[0]\<close>).
\<close>

definition step :: "instruction_set \<Rightarrow> nat \<Rightarrow> string \<Rightarrow> state \<Rightarrow> exn + state" where
  "step iset line_number line st =
     (case section_label line of
        Some name \<Rightarrow>
          (case (if sections_started st \<noteq> 0
                 then map_sum id (\<lambda>t. result st @ [t]) (section_end_formatter iset name)
                 else Inr (result st)) of
             Inl e \<Rightarrow> Inl e
           | Inr res \<Rightarrow>
               (case section_start_formatter iset name of
                  Inl e \<Rightarrow> Inl e
                | Inr t \<Rightarrow>
                    Inr \<lparr>result = res @ [t],
                         sections_started = Suc (sections_started st),
                         last_section_name = name\<rparr>))
      | None \<Rightarrow>
          if line = [] \<or> strip line = [] then Inr st
          else
            (case dispatch (instructions iset) line of
               Some (i, g) \<Rightarrow>
                 if sections_started st = 0
                 then Inl (AssemblerError (StatementOutsideSection (line_number + 1)))
                 else (case format i g of
                         Inl e \<Rightarrow> Inl e
                       | Inr t \<Rightarrow> Inr (st\<lparr>result := result st @ [t]\<rparr>))
             | None \<Rightarrow> Inl (AssemblerError (InvalidSyntax (line_number + 1)))))"

fun main_pass :: "instruction_set \<Rightarrow> nat \<Rightarrow> string list \<Rightarrow> state \<Rightarrow> exn + state" where
  "main_pass iset line_number [] st = Inr st"
| "main_pass iset line_number (line # lines) st =
     (case step iset line_number line st of
        Inl e \<Rightarrow> Inl e
      | Inr st' \<Rightarrow> main_pass iset (Suc line_number) lines st')"

text \<open>
  Lines 98 and 99: the closing emission, for \<^verbatim>\<open>last_section_name\<close>; only an
  \<^verbatim>\<open>AttributeError\<close> is swallowed.
\<close>

definition close_section :: "instruction_set \<Rightarrow> state \<Rightarrow> exn + string list" where
  "close_section iset st =
     (case section_end_formatter iset (last_section_name st) of
        Inr t \<Rightarrow> Inr (result st @ [t])
      | Inl AttributeError \<Rightarrow> Inr (result st)
      | Inl e \<Rightarrow> Inl e)"

text \<open>
  Line 100: \<^verbatim>\<open>filter(None, ...)\<close> keeps the entries that are not empty. Line 101:
  \<^verbatim>\<open>bytes(s)\<close> of a \<^verbatim>\<open>str\<close> with no encoding raises \<^verbatim>\<open>TypeError\<close>, whatever the text.
\<close>

definition join_output :: "assembler \<Rightarrow> string list \<Rightarrow> string" where
  "join_output a res =
     join (filter (\<lambda>t. t \<noteq> []) ([start_formatter a] @ res @ [end_formatter a]))"

definition bytes :: "string \<Rightarrow> exn + assembled" where
  "bytes s = Inl TypeError"

text \<open>The lines the second loop walks: \<^verbatim>\<open>new_text\<close> joined, stripped and split again.\<close>

definition rewritten :: "string list \<Rightarrow> string list" where
  "rewritten new_text = splitlines (strip_comments (join new_text))"

text \<open>Lines 52 to 99: the list \<^verbatim>\<open>result\<close> when the closing emission is done.\<close>

definition emit :: "assembler \<Rightarrow> string \<Rightarrow> exn + string list" where
  "emit a text =
     (if strip text = [] then Inl (AssemblerError EmptyInput)
      else
        (case label_pass (splitlines (strip_comments text)) of
           Inl e \<Rightarrow> Inl e
         | Inr new_text \<Rightarrow>
             (case main_pass (instruction_set a) 0 (rewritten new_text) initial of
                Inl e \<Rightarrow> Inl e
              | Inr st \<Rightarrow> close_section (instruction_set a) st)))"

definition assemble :: "assembler \<Rightarrow> string \<Rightarrow> bool \<Rightarrow> exn + assembled" where
  "assemble a text binary_output =
     (case emit a text of
        Inl e \<Rightarrow> Inl e
      | Inr res \<Rightarrow>
          if binary_output then bytes (join_output a res)
          else Inr (Text (join_output a res)))"

section \<open>The engine with callables that have state\<close>

text \<open>
  A Python callable may read and write state that outlives the call (a counter, a
  cache, the objects it holds). \<open>'w\<close> is that state, the world; a callable gets the
  world, returns a text or raises, and leaves a world. Below is \<^verbatim>\<open>assemble\<close> once more,
  lines 50 to 101 with the same branches in the same order, the world handed from each
  formatter call to the next. The engine itself touches the world nowhere: its
  accumulators are local to the call and it assigns no attribute of \<^verbatim>\<open>self\<close>, of the
  instruction set or of an instruction.
\<close>

type_synonym ('a, 'w) callable = "'a \<Rightarrow> 'w \<Rightarrow> (exn + string) \<times> 'w"

record 'w instruction_w =
  mnemonic_w :: string
  arguments_w :: "regex list"
  formatter_w :: "(groups, 'w) callable"

record 'w instruction_set_w =
  instructions_w :: "'w instruction_w list"
  section_start_formatter_w :: "(string, 'w) callable"
  section_end_formatter_w :: "(string, 'w) callable"

record 'w assembler_w =
  instruction_set_w :: "'w instruction_set_w"
  start_formatter_w :: string
  end_formatter_w :: string

definition pattern_w :: "'w instruction_w \<Rightarrow> regex" where
  "pattern_w i =
     Seq (Star Space)
       (Seq (escape (mnemonic_w i))
         (Seq (Star Space)
           (Seq (arguments_regex (arguments_w i)) (Star Space))))"

fun dispatch_w :: "'w instruction_w list \<Rightarrow> string \<Rightarrow> ('w instruction_w \<times> groups) option" where
  "dispatch_w [] line = None"
| "dispatch_w (i # is) line =
     (case fullmatch (pattern_w i) line of
        Some g \<Rightarrow> Some (i, g)
      | None \<Rightarrow> dispatch_w is line)"

definition step_w ::
  "'w instruction_set_w \<Rightarrow> nat \<Rightarrow> string \<Rightarrow> state \<Rightarrow> 'w \<Rightarrow> (exn + state) \<times> 'w" where
  "step_w iset line_number line st w =
     (case section_label line of
        Some name \<Rightarrow>
          (case (if sections_started st \<noteq> 0
                 then (case section_end_formatter_w iset name w of
                         (Inl e, w1) \<Rightarrow> (Inl e, w1)
                       | (Inr t, w1) \<Rightarrow> (Inr (result st @ [t]), w1))
                 else (Inr (result st), w)) of
             (Inl e, w1) \<Rightarrow> (Inl e, w1)
           | (Inr res, w1) \<Rightarrow>
               (case section_start_formatter_w iset name w1 of
                  (Inl e, w2) \<Rightarrow> (Inl e, w2)
                | (Inr t, w2) \<Rightarrow>
                    (Inr \<lparr>result = res @ [t],
                          sections_started = Suc (sections_started st),
                          last_section_name = name\<rparr>, w2)))
      | None \<Rightarrow>
          if line = [] \<or> strip line = [] then (Inr st, w)
          else
            (case dispatch_w (instructions_w iset) line of
               Some (i, g) \<Rightarrow>
                 if sections_started st = 0
                 then (Inl (AssemblerError (StatementOutsideSection (line_number + 1))), w)
                 else (case formatter_w i g w of
                         (Inl e, w1) \<Rightarrow> (Inl e, w1)
                       | (Inr t, w1) \<Rightarrow> (Inr (st\<lparr>result := result st @ [t]\<rparr>), w1))
             | None \<Rightarrow> (Inl (AssemblerError (InvalidSyntax (line_number + 1))), w)))"

fun main_pass_w ::
  "'w instruction_set_w \<Rightarrow> nat \<Rightarrow> string list \<Rightarrow> state \<Rightarrow> 'w \<Rightarrow> (exn + state) \<times> 'w" where
  "main_pass_w iset line_number [] st w = (Inr st, w)"
| "main_pass_w iset line_number (line # lines) st w =
     (case step_w iset line_number line st w of
        (Inl e, w1) \<Rightarrow> (Inl e, w1)
      | (Inr st', w1) \<Rightarrow> main_pass_w iset (Suc line_number) lines st' w1)"

definition close_section_w ::
  "'w instruction_set_w \<Rightarrow> state \<Rightarrow> 'w \<Rightarrow> (exn + string list) \<times> 'w" where
  "close_section_w iset st w =
     (case section_end_formatter_w iset (last_section_name st) w of
        (Inr t, w1) \<Rightarrow> (Inr (result st @ [t]), w1)
      | (Inl AttributeError, w1) \<Rightarrow> (Inr (result st), w1)
      | (Inl e, w1) \<Rightarrow> (Inl e, w1))"

definition emit_w :: "'w assembler_w \<Rightarrow> string \<Rightarrow> 'w \<Rightarrow> (exn + string list) \<times> 'w" where
  "emit_w a text w =
     (if strip text = [] then (Inl (AssemblerError EmptyInput), w)
      else
        (case label_pass (splitlines (strip_comments text)) of
           Inl e \<Rightarrow> (Inl e, w)
         | Inr new_text \<Rightarrow>
             (case main_pass_w (instruction_set_w a) 0 (rewritten new_text) initial w of
                (Inl e, w1) \<Rightarrow> (Inl e, w1)
              | (Inr st, w1) \<Rightarrow> close_section_w (instruction_set_w a) st w1)))"

definition assemble_w ::
  "'w assembler_w \<Rightarrow> string \<Rightarrow> bool \<Rightarrow> 'w \<Rightarrow> (exn + assembled) \<times> 'w" where
  "assemble_w a text binary_output w =
     (case emit_w a text w of
        (Inl e, w1) \<Rightarrow> (Inl e, w1)
      | (Inr res, w1) \<Rightarrow>
          let joined =
            join (filter (\<lambda>t. t \<noteq> []) ([start_formatter_w a] @ res @ [end_formatter_w a]))
          in (if binary_output then bytes joined else Inr (Text joined), w1))"





section \<open>The label syntax as the specification words it\<close>

text \<open>
  The specification gives the identifier of a label as \<^verbatim>\<open>[A-Za-z_][A-Za-z_0-9]*\<close>. These
  three definitions follow that sentence, not the code.
\<close>

definition spec_start :: "char \<Rightarrow> bool" where
  "spec_start c =
     (let n = (of_char c :: nat)
      in (65 \<le> n \<and> n \<le> 90) \<or> (97 \<le> n \<and> n \<le> 122) \<or> c = CHR ''_'')"

definition spec_char :: "char \<Rightarrow> bool" where
  "spec_char c = (spec_start c \<or> (let n = (of_char c :: nat) in 48 \<le> n \<and> n \<le> 57))"

definition spec_identifier :: "string \<Rightarrow> bool" where
  "spec_identifier name =
     (case name of [] \<Rightarrow> False | c # cs \<Rightarrow> spec_start c \<and> list_all spec_char cs)"

section \<open>Tables used in the examples\<close>

text \<open>
  The section formatters of the specification's bracketing example, \<^verbatim>\<open>f"START {n}"\<close> and
  \<^verbatim>\<open>f"END {n}"\<close>, an instruction \<^verbatim>\<open>nop\<close> without arguments, and an assembler over them with
  empty prologue and epilogue.
\<close>

definition START :: "string \<Rightarrow> exn + string" where
  "START n = Inr (''START '' @ n)"

definition END :: "string \<Rightarrow> exn + string" where
  "END n = Inr (''END '' @ n)"

definition nop :: instruction where
  "nop = \<lparr>mnemonic = ''nop'', arguments = [], formatter = (\<lambda>g. Inr ''NOP'')\<rparr>"

definition bracketing :: assembler where
  "bracketing =
     \<lparr>instruction_set =
        \<lparr>instructions = [nop], section_start_formatter = START, section_end_formatter = END\<rparr>,
      start_formatter = [], end_formatter = []\<rparr>"

text \<open>
  \<^verbatim>\<open>Instruction("mov", r"\w\w*", r"\w\w*", formatter=lambda x, y: f"MOV {x} {y}")\<close> and an
  assembler with this one instruction.
\<close>

definition mov :: instruction where
  "mov =
     \<lparr>mnemonic = ''mov'',
      arguments = [Seq (Atom Word) (Star Word), Seq (Atom Word) (Star Word)],
      formatter = (\<lambda>g. case g of
                           [Some x, Some y] \<Rightarrow> Inr (''MOV '' @ x @ '' '' @ y)
                         | _ \<Rightarrow> Inl TypeError)\<rparr>"





definition counting :: "nat assembler_w" where
  "counting =
     \<lparr>instruction_set_w =
        \<lparr>instructions_w = [],
         section_start_formatter_w = (\<lambda>n w. (Inr (''START '' @ n @ replicate w CHR ''!''), Suc w)),
         section_end_formatter_w = (\<lambda>n w. (Inr (''END '' @ n), w))\<rparr>,
      start_formatter_w = [], end_formatter_w = []\<rparr>"



section \<open>Facts about the matcher\<close>






lemma rmatch_anchor_free: "anchor_free r \<Longrightarrow> rmatch r b s = rmatch r b' s"
proof (induction r arbitrary: b b' s)
  case (Seq r1 r2)
  have 1: "rmatch r1 b s = rmatch r1 b' s"
    using Seq by simp
  have 2: "\<And>c s1. rmatch r2 c s1 = rmatch r2 False s1"
    using Seq by simp
  show ?case
    unfolding rmatch.simps 1 2 [of "_ \<and> _"] ..
next
  case (Alt r1 r2)
  have "rmatch r1 b s = rmatch r1 b' s" "rmatch r2 b s = rmatch r2 b' s"
    using Alt by simp_all
  then show ?case by simp
next
  case (Group r)
  have "rmatch r b s = rmatch r b' s"
    using Group by simp
  then show ?case by simp
qed simp_all




lemma rmatch_Star_Seq:
  "rmatch (Seq (Star a) r) b s =
     concat (map (\<lambda>s1. rmatch r (b \<and> length s1 = length s) s1) (star_rests a s))"
  by (simp add: comp_def)





lemma first_full_append:
  "first_full (ms @ ns) = (case first_full ms of None \<Rightarrow> first_full ns | Some g \<Rightarrow> Some g)"
  by (induction ms) auto

lemma first_full_map:
  "first_full (map (\<lambda>(g, s'). (h g, s')) ms) = map_option h (first_full ms)"
  by (induction ms) auto

lemma first_full_star:
  "first_full (map (\<lambda>s'. (h s', s')) (star_rests a s)) =
     (if list_all (amatch a) s then Some (h []) else None)"
  by (induction s) (auto simp: first_full_append)



lemma dispatch_SomeD:
  "dispatch is line = Some (i, g) \<Longrightarrow> i \<in> set is \<and> fullmatch (pattern i) line = Some g"
  by (induction "is") (auto split: option.splits)

subsection \<open>Character classes\<close>

lemma space_not_word: "is_space c \<Longrightarrow> \<not> is_word c"
proof -
  have "of_char CHR ''_'' = (95::nat)" by simp
  then show "is_space c \<Longrightarrow> \<not> is_word c"
    unfolding is_space_def is_word_def is_alnum_def Let_def by auto
qed

lemma digit_word: "is_digit c \<Longrightarrow> is_word c"
  unfolding is_digit_def is_word_def is_alnum_def Let_def by auto

lemma colon_facts: "\<not> is_space CHR '':''" "\<not> is_word CHR '':''" "is_word CHR ''_''"
  by code_simp+

lemma amatch_ident [simp]:
  "amatch (Or (Chr CHR ''_'') Word) c = is_word c"
  "amatch (Or (Chr CHR ''_'') (Or Word Digit)) c = is_word c"
  using digit_word [of c] by (auto simp: is_word_def)

lemma spec_char_word: "spec_char c \<Longrightarrow> is_word c"
  unfolding spec_char_def spec_start_def is_word_def is_alnum_def Let_def by auto

lemma spec_start_word: "spec_start c \<Longrightarrow> is_word c"
  by (rule spec_char_word) (simp add: spec_char_def)

subsection \<open>The two label patterns\<close>

text \<open>
  A greedy star followed by something that cannot start with a character of the star:
  only the longest run is followed by a match.
\<close>

lemma concat_star_rests:
  assumes "\<And>x xs. amatch a x \<Longrightarrow> F (x # xs) = []"
  shows "concat (map F (star_rests a s)) = F (dropWhile (amatch a) s)"
  using assms by (induction s) auto

lemma rmatch_Star_Seq_skip:
  assumes "\<And>x xs. amatch a x \<Longrightarrow> rmatch r False (x # xs) = []"
  shows "rmatch (Seq (Star a) r) False s = rmatch r False (dropWhile (amatch a) s)"
  unfolding rmatch_Star_Seq using assms by (simp add: concat_star_rests)

lemma rmatch_Group_ident_Seq:
  assumes "\<And>x xs. is_word x \<Longrightarrow> rmatch r False (x # xs) = []"
  shows "rmatch (Seq (Group ident) r) False s =
     (case s of
        [] \<Rightarrow> []
      | x # xs \<Rightarrow>
          if is_word x
          then map (\<lambda>(g, s'). (Some (x # takeWhile is_word xs) # g, s'))
                 (rmatch r False (dropWhile is_word xs))
          else [])"
proof (cases s)
  case Nil
  then show ?thesis by (simp add: ident_def)
next
  case (Cons x xs)
  show ?thesis
  proof (cases "is_word x")
    case False
    then show ?thesis by (simp add: ident_def Cons del: amatch.simps)
  next
    case True
    let ?W = "Or (Chr CHR ''_'') (Or Word Digit)"
    let ?F = "\<lambda>s'. map (\<lambda>(g, s''). (Some (take (length s - length s') s) # g, s''))
                      (rmatch r False s')"
    have "rmatch (Seq (Group ident) r) False s = concat (map ?F (star_rests ?W xs))"
      using True by (simp add: ident_def Cons comp_def del: amatch.simps)
    also have "\<dots> = ?F (dropWhile (amatch ?W) xs)"
      by (rule concat_star_rests) (simp add: assms del: amatch.simps)
    also have "\<dots> = map (\<lambda>(g, s'). (Some (x # takeWhile is_word xs) # g, s'))
                 (rmatch r False (dropWhile is_word xs))"
    proof -
      have "length (takeWhile is_word xs) + length (dropWhile is_word xs) = length xs"
        by (metis length_append takeWhile_dropWhile_id)
      then have "length s - length (dropWhile is_word xs) = Suc (length (takeWhile is_word xs))"
        by (simp add: Cons)
      then have "take (length s - length (dropWhile is_word xs)) s = x # takeWhile is_word xs"
        by (simp add: Cons) (metis append_eq_conv_conj takeWhile_dropWhile_id)
      then show ?thesis
        by (simp add: amatch_ident [abs_def])
    qed
    finally show ?thesis
      using True by (simp add: Cons)
  qed
qed

lemma rmatch_label_head:
  "rmatch (Seq (Star Space) (Seq (Group ident) (Seq (Star Space) (Seq (Atom (Chr CHR '':'')) t))))
     False line =
     (case dropWhile is_space line of
        [] \<Rightarrow> []
      | x # xs \<Rightarrow>
          if is_word x
          then (case dropWhile is_space (dropWhile is_word xs) of
                  [] \<Rightarrow> []
                | c # rest \<Rightarrow>
                    if c = CHR '':''
                    then map (\<lambda>(g, s'). (Some (x # takeWhile is_word xs) # g, s'))
                           (rmatch t False rest)
                    else [])
          else [])"
proof -
  let ?C = "Seq (Atom (Chr CHR '':'')) t"
  have c: "rmatch ?C False s =
      (case s of [] \<Rightarrow> [] | c # rest \<Rightarrow> if c = CHR '':'' then rmatch t False rest else [])" for s
    by (cases s) auto
  have 2: "rmatch (Seq (Star Space) ?C) False s = rmatch ?C False (dropWhile is_space s)" for s
    using rmatch_Star_Seq_skip [of Space ?C s] colon_facts(1)
    by (auto simp: amatch.simps(3) [abs_def])
  have 3: "rmatch (Seq (Star Space) ?C) False (x # xs) = []" if "is_word x" for x xs
    using that space_not_word [of x] colon_facts(2) by (auto simp: 2 c)
  have 4: "rmatch (Seq (Group ident) (Seq (Star Space) ?C)) False (x # xs) = []"
    if "amatch Space x" for x xs
  proof -
    from that have "\<not> is_word x"
      by (simp add: space_not_word)
    then show ?thesis
      by (simp only: rmatch_Group_ident_Seq [OF 3] list.case if_False)
  qed
  have 1: "rmatch (Seq (Star Space) (Seq (Group ident) (Seq (Star Space) ?C))) False s
      = rmatch (Seq (Group ident) (Seq (Star Space) ?C)) False (dropWhile is_space s)" for s
    using rmatch_Star_Seq_skip [of Space "Seq (Group ident) (Seq (Star Space) ?C)" s, OF 4]
    by (simp only: amatch.simps(3) [abs_def])
  have A: "rmatch (Seq (Star Space) (Seq (Group ident) (Seq (Star Space) ?C))) False line =
      (case dropWhile is_space line of
        [] \<Rightarrow> []
      | x # xs \<Rightarrow>
          if is_word x
          then map (\<lambda>(g, s'). (Some (x # takeWhile is_word xs) # g, s'))
                 (rmatch (Seq (Star Space) ?C) False (dropWhile is_word xs))
          else [])"
    unfolding 1 by (rule rmatch_Group_ident_Seq [OF 3])
  show ?thesis
    unfolding A 2 c by (simp split: list.split del: dropWhile_eq_Nil_conv)
qed

lemma first_full_label_head:
  "first_full
     (rmatch (Seq (Star Space) (Seq (Group ident) (Seq (Star Space) (Seq (Atom (Chr CHR '':'')) t))))
        False line) =
     (case dropWhile is_space line of
        [] \<Rightarrow> None
      | x # xs \<Rightarrow>
          if is_word x
          then (case dropWhile is_space (dropWhile is_word xs) of
                  [] \<Rightarrow> None
                | c # rest \<Rightarrow>
                    if c = CHR '':''
                    then map_option (\<lambda>g. Some (x # takeWhile is_word xs) # g)
                           (first_full (rmatch t False rest))
                    else None)
          else None)"
  unfolding rmatch_label_head
  by (simp split: list.split add: first_full_map del: dropWhile_eq_Nil_conv rmatch.simps)

lemma first_full_Group_Star:
  "first_full (rmatch (Group (Star a)) b rest) =
     (if list_all (amatch a) rest then Some [Some rest] else None)"
proof -
  have "rmatch (Group (Star a)) b rest =
      map (\<lambda>s'. ([Some (take (length rest - length s') rest)], s')) (star_rests a rest)"
    by (simp add: comp_def)
  then show ?thesis
    by (simp only: first_full_star) simp
qed

lemma first_full_Star:
  "first_full (rmatch (Star a) b rest) = (if list_all (amatch a) rest then Some [] else None)"
  using first_full_star [of "\<lambda>s'. []" a rest] by simp

text \<open>What the patterns of lines 59 and 72 compute, without the matcher.\<close>

lemma fullmatch_label_prefix:
  "fullmatch label_prefix line =
     (case dropWhile is_space line of
        [] \<Rightarrow> None
      | x # xs \<Rightarrow>
          if is_word x
          then (case dropWhile is_space (dropWhile is_word xs) of
                  [] \<Rightarrow> None
                | c # rest \<Rightarrow>
                    if c = CHR '':'' \<and> list_all (\<lambda>c. c \<noteq> CHR 0x0A) rest
                    then Some [Some (x # takeWhile is_word xs), Some rest]
                    else None)
          else None)"
proof -
  have "anchor_free label_prefix"
    by (simp add: label_prefix_def ident_def)
  then have "rmatch label_prefix True line = rmatch label_prefix False line"
    by (rule rmatch_anchor_free)
  then have "fullmatch label_prefix line = first_full (rmatch label_prefix False line)"
    by (simp only: fullmatch_def)
  then show ?thesis
    unfolding label_prefix_def first_full_label_head first_full_Group_Star
    by (simp split: list.split del: dropWhile_eq_Nil_conv add: amatch.simps(2) [abs_def])
qed

lemma fullmatch_bare_label:
  "fullmatch bare_label line =
     (case dropWhile is_space line of
        [] \<Rightarrow> None
      | x # xs \<Rightarrow>
          if is_word x
          then (case dropWhile is_space (dropWhile is_word xs) of
                  [] \<Rightarrow> None
                | c # rest \<Rightarrow>
                    if c = CHR '':'' \<and> list_all is_space rest
                    then Some [Some (x # takeWhile is_word xs)]
                    else None)
          else None)"
proof -
  have "anchor_free bare_label"
    by (simp add: bare_label_def ident_def)
  then have "rmatch bare_label True line = rmatch bare_label False line"
    by (rule rmatch_anchor_free)
  then have "fullmatch bare_label line = first_full (rmatch bare_label False line)"
    by (simp only: fullmatch_def)
  then show ?thesis
    unfolding bare_label_def first_full_label_head first_full_Star
    by (simp split: list.split del: dropWhile_eq_Nil_conv add: amatch.simps(3) [abs_def])
qed

text \<open>
  The groups of lines 59 and 72 take part in every match, so the catch-all cases of
  \<open>split_label\<close> and \<open>section_label\<close> are the no-match case only.
\<close>

lemma label_prefix_groups:
  "fullmatch label_prefix line = Some g \<Longrightarrow> \<exists>name statement. g = [Some name, Some statement]"
  unfolding fullmatch_label_prefix by (auto split: list.splits if_splits)

lemma bare_label_groups: "fullmatch bare_label line = Some g \<Longrightarrow> \<exists>name. g = [Some name]"
  unfolding fullmatch_bare_label by (auto split: list.splits if_splits)

section \<open>Section boundaries\<close>

text \<open>
  At a boundary inside an open section the closing text is made from the name matched on
  the boundary line, the section being opened; \<open>last_section_name\<close> is not read.
\<close>

lemma boundary_in_open_section:
  assumes "sections_started st \<noteq> 0" and "section_label line = Some name"
    and "section_end_formatter iset name = Inr e" and "section_start_formatter iset name = Inr t"
  shows "step iset n line st =
     Inr \<lparr>result = result st @ [e, t], sections_started = Suc (sections_started st),
          last_section_name = name\<rparr>"
  using assms by (simp add: step_def)

text \<open>
  C1. The specification's bracketing example, run on the code: at the boundary
  \<^verbatim>\<open>sec2:\<close> the closing text is that of the section being opened, \<^verbatim>\<open>END sec2\<close>, where the
  section being left is \<^verbatim>\<open>sec1\<close>. The claim asks for \<^verbatim>\<open>END sec1\<close> there.
\<close>

theorem bracketing_closes_with_new_name:
  "assemble bracketing ''sec1:\<newline>nop\<newline>sec2:\<newline>nop'' False =
     Inr (Text ''START sec1\<newline>NOP\<newline>END sec2\<newline>START sec2\<newline>NOP\<newline>END sec2'')"
  by code_simp

section \<open>Binary output\<close>

lemma binary_output_never_returns: "assemble a text True \<noteq> Inr out"
  by (simp add: assemble_def bytes_def split: sum.splits)

text \<open>
  C2. A text that assembles as text raises \<^verbatim>\<open>TypeError\<close> when binary output is asked
  for: here the one-line program \<^verbatim>\<open>sec1:\<close>. The claim asks for the bytes of the text.
\<close>

theorem binary_output_raises:
  "assemble bracketing ''sec1:'' False = Inr (Text ''START sec1\<newline>END sec1'')
   \<and> assemble bracketing ''sec1:'' True = Inl TypeError"
  by code_simp

section \<open>Statements before any section\<close>

lemma step_blank: "section_label l = None \<Longrightarrow> strip l = [] \<Longrightarrow> step iset n l st = Inr st"
  by (simp add: step_def)

lemma main_pass_blanks:
  "list_all (\<lambda>l. section_label l = None \<and> strip l = []) blanks \<Longrightarrow>
   main_pass iset n (blanks @ lines) st = main_pass iset (n + length blanks) lines st"
  by (induction blanks arbitrary: n) (simp_all add: step_blank)

lemma step_statement_outside:
  assumes "sections_started st = 0" and "section_label line = None" and "strip line \<noteq> []"
  shows "step iset n line st =
     Inl (AssemblerError (case dispatch (instructions iset) line of
                            None \<Rightarrow> InvalidSyntax (n + 1)
                          | Some m \<Rightarrow> StatementOutsideSection (n + 1)))"
  using assms by (auto simp: step_def strip_def split: option.splits)

text \<open>
  C3, as stated, fails: the statement \<^verbatim>\<open>mov\<close>, the first line of the input and before any
  section, matches no instruction of the table and is rejected as invalid syntax, not as
  a statement outside a section.
\<close>

theorem unmatched_statement_is_invalid_syntax:
  "section_label ''mov'' = None \<and> strip ''mov'' = ''mov''
   \<and> assemble bracketing ''mov'' False = Inl (AssemblerError (InvalidSyntax 1))"
  by code_simp

text \<open>
  C3, amended. A line of the rewritten sequence that is neither blank nor a bare label,
  reached with no section opened (every line before it is blank), makes \<open>assemble\<close> fail
  with its 1-based number in the rewritten sequence: as a statement outside a section
  when some instruction of the table matches the line, as invalid syntax when none does.
\<close>

theorem statement_before_any_section:
  assumes "strip text \<noteq> []"
    and "label_pass (splitlines (strip_comments text)) = Inr new_text"
    and "rewritten new_text = blanks @ line # rest"
    and "list_all (\<lambda>l. section_label l = None \<and> strip l = []) blanks"
    and "section_label line = None" and "strip line \<noteq> []"
  shows "assemble a text binary_output =
     Inl (AssemblerError
       (case dispatch (instructions (instruction_set a)) line of
          None \<Rightarrow> InvalidSyntax (length blanks + 1)
        | Some m \<Rightarrow> StatementOutsideSection (length blanks + 1)))"
proof -
  have "main_pass (instruction_set a) 0 (rewritten new_text) initial =
        main_pass (instruction_set a) (length blanks) (line # rest) initial"
    using main_pass_blanks [OF assms(4), of "instruction_set a" 0 "line # rest" initial]
    by (simp add: assms(3))
  also have "\<dots> = Inl (AssemblerError
       (case dispatch (instructions (instruction_set a)) line of
          None \<Rightarrow> InvalidSyntax (length blanks + 1)
        | Some m \<Rightarrow> StatementOutsideSection (length blanks + 1)))"
    using step_statement_outside [OF _ assms(5,6), of initial "instruction_set a" "length blanks"]
    by (simp add: initial_def)
  finally show ?thesis
    using assms(1,2) by (simp add: assemble_def emit_def)
qed

text \<open>
  The amended C3 at the input of an empty line, \<^verbatim>\<open>nop\<close> and \<^verbatim>\<open>sec1:\<close>: the statement is
  line 2 and the table has \<^verbatim>\<open>nop\<close>.
\<close>

theorem statement_before_any_section_witness:
  "strip ''\<newline>nop\<newline>sec1:'' \<noteq> []
   \<and> label_pass (splitlines (strip_comments ''\<newline>nop\<newline>sec1:'')) = Inr [[], ''nop'', ''sec1:'', []]
   \<and> rewritten [[], ''nop'', ''sec1:'', []] = [[]] @ ''nop'' # [''sec1:'']
   \<and> list_all (\<lambda>l. section_label l = None \<and> strip l = []) [[]]
   \<and> section_label ''nop'' = None \<and> strip ''nop'' \<noteq> []
   \<and> assemble bracketing ''\<newline>nop\<newline>sec1:'' False
       = Inl (AssemblerError (StatementOutsideSection 2))"
proof -
  have 1: "strip ''\<newline>nop\<newline>sec1:'' \<noteq> []" by code_simp
  have 2: "label_pass (splitlines (strip_comments ''\<newline>nop\<newline>sec1:''))
      = Inr [[], ''nop'', ''sec1:'', []]"
    by code_simp
  have 3: "rewritten [[], ''nop'', ''sec1:'', []] = [[]] @ ''nop'' # [''sec1:'']" by code_simp
  have 4: "list_all (\<lambda>l. section_label l = None \<and> strip l = []) [[]]" by code_simp
  have 5: "section_label ''nop'' = None" by code_simp
  have 6: "strip ''nop'' \<noteq> []" by code_simp
  have "fullmatch (pattern nop) ''nop'' = Some []"
    by code_simp
  then have 7: "dispatch (instructions (instruction_set bracketing)) ''nop'' = Some (nop, [])"
    by (simp add: bracketing_def)
  show ?thesis
    using 1 2 3 4 5 6 statement_before_any_section [OF 1 2 3 4 5 6, of bracketing False]
    by (simp add: 7)
qed

section \<open>The closing emission\<close>

text \<open>
  C4. An input of one comment line opens no section, and the closing emission is made
  all the same, with the empty name: the output is \<^verbatim>\<open>END\<close> followed by a space. The
  claim asks for no closing emission.
\<close>

theorem comment_only_input_emits_end:
  "assemble bracketing ''; only a comment'' False = Inr (Text ''END '')"
  by code_simp

section \<open>Label declarations\<close>

lemma dropWhile_run:
  "list_all P xs \<Longrightarrow> ys = [] \<or> \<not> P (hd ys) \<Longrightarrow> dropWhile P (xs @ ys) = ys"
  by (induction xs) (auto simp: dropWhile_eq_self_iff)

lemma takeWhile_run:
  "list_all P xs \<Longrightarrow> ys = [] \<or> \<not> P (hd ys) \<Longrightarrow> takeWhile P (xs @ ys) = xs"
  by (induction xs) (auto simp: takeWhile_eq_Nil_iff)

lemma label_line_parts:
  assumes "list_all is_space ws" and "is_word x" and "list_all is_word xs"
    and "list_all is_space ws'"
  shows "dropWhile is_space (ws @ x # xs @ ws' @ CHR '':'' # rest) = x # xs @ ws' @ CHR '':'' # rest"
    and "dropWhile is_word (xs @ ws' @ CHR '':'' # rest) = ws' @ CHR '':'' # rest"
    and "takeWhile is_word (xs @ ws' @ CHR '':'' # rest) = xs"
    and "dropWhile is_space (ws' @ CHR '':'' # rest) = CHR '':'' # rest"
proof -
  show "dropWhile is_space (ws @ x # xs @ ws' @ CHR '':'' # rest) = x # xs @ ws' @ CHR '':'' # rest"
    using assms(1,2) dropWhile_run [of is_space ws "x # xs @ ws' @ CHR '':'' # rest"]
    by (auto dest: space_not_word)
  have nw: "ws' @ CHR '':'' # rest = [] \<or> \<not> is_word (hd (ws' @ CHR '':'' # rest))"
    using assms(4) colon_facts(2) by (cases ws') (auto dest: space_not_word)
  show "dropWhile is_word (xs @ ws' @ CHR '':'' # rest) = ws' @ CHR '':'' # rest"
    using assms(3) nw by (rule dropWhile_run)
  show "takeWhile is_word (xs @ ws' @ CHR '':'' # rest) = xs"
    using assms(3) nw by (rule takeWhile_run)
  show "dropWhile is_space (ws' @ CHR '':'' # rest) = CHR '':'' # rest"
    using assms(4) colon_facts(1) dropWhile_run [of is_space ws' "CHR '':'' # rest"] by simp
qed

lemma label_prefix_sufficient:
  assumes "list_all is_space ws" and "is_word x" and "list_all is_word xs"
    and "list_all is_space ws'" and "list_all (\<lambda>c. c \<noteq> CHR 0x0A) rest"
  shows "fullmatch label_prefix (ws @ (x # xs) @ ws' @ CHR '':'' # rest)
     = Some [Some (x # xs), Some rest]"
  using assms(2,5) by (simp add: fullmatch_label_prefix label_line_parts [OF assms(1-4)])

lemma bare_label_sufficient:
  assumes "list_all is_space ws" and "is_word x" and "list_all is_word xs"
    and "list_all is_space ws'" and "list_all is_space rest"
  shows "fullmatch bare_label (ws @ (x # xs) @ ws' @ CHR '':'' # rest) = Some [Some (x # xs)]"
  using assms(2,5) by (simp add: fullmatch_bare_label label_line_parts [OF assms(1-4)])

lemma label_shape_necessary:
  assumes "dropWhile is_space line = x # xs" and "is_word x"
    and "dropWhile is_space (dropWhile is_word xs) = CHR '':'' # rest"
  shows "\<exists>ws name ws' rest. line = ws @ name @ ws' @ CHR '':'' # rest \<and> list_all is_space ws
           \<and> name \<noteq> [] \<and> list_all is_word name \<and> list_all is_space ws'"
proof (intro exI conjI)
  let ?ws = "takeWhile is_space line" and ?name = "x # takeWhile is_word xs"
  let ?ws' = "takeWhile is_space (dropWhile is_word xs)"
  have "line = ?ws @ x # xs"
    using assms(1) by (metis takeWhile_dropWhile_id)
  also have "xs = takeWhile is_word xs @ dropWhile is_word xs"
    by simp
  also have "dropWhile is_word xs = ?ws' @ CHR '':'' # rest"
    using assms(3) by (metis takeWhile_dropWhile_id)
  finally show "line = ?ws @ ?name @ ?ws' @ CHR '':'' # rest"
    by simp
  show "list_all is_space ?ws" "list_all is_word ?name" "list_all is_space ?ws'"
    using assms(2) by (auto simp: list_all_iff dest: set_takeWhileD)
  show "?name \<noteq> []" by simp
qed

text \<open>
  C5, as stated, fails: the line \<^verbatim>\<open>1:\<close>, whose identifier starts with a digit, is a label
  declaration and a section boundary, and so is a line with white space before the
  identifier and before the colon.
\<close>

theorem digit_label_is_declaration:
  "fullmatch label_prefix ''1:'' = Some [Some ''1'', Some []]
   \<and> section_label ''1:'' = Some ''1''
   \<and> assemble bracketing ''1:'' False = Inr (Text ''START 1\<newline>END 1'')
   \<and> section_label '' foo :'' = Some ''foo''
   \<and> assemble bracketing '' foo :'' False = Inr (Text ''START foo\<newline>END foo'')"
  by code_simp

text \<open>
  C5, amended. A line made of optional white space, an identifier matching
  \<^verbatim>\<open>[A-Za-z_][A-Za-z_0-9]*\<close>, optional white space, a colon and any further text is a label
  declaration (line 59 matches it, with the identifier and the further text as its
  groups), and a section boundary when the further text is white space. Conversely a
  line that is a label declaration or a section boundary is made of optional white
  space, one or more word characters (\<^verbatim>\<open>\w\<close>), optional white space, a colon and further
  text. Whether a name starting with a digit is a label is left open here.
\<close>

theorem label_declaration_shape:
  "(list_all is_space ws \<and> spec_identifier name \<and> list_all is_space ws'
      \<and> list_all (\<lambda>c. c \<noteq> CHR 0x0A) rest \<longrightarrow>
      fullmatch label_prefix (ws @ name @ ws' @ CHR '':'' # rest) = Some [Some name, Some rest]
      \<and> (list_all is_space rest \<longrightarrow>
           section_label (ws @ name @ ws' @ CHR '':'' # rest) = Some name))
   \<and> (fullmatch label_prefix line \<noteq> None \<or> section_label line \<noteq> None \<longrightarrow>
        (\<exists>ws name ws' rest. line = ws @ name @ ws' @ CHR '':'' # rest \<and> list_all is_space ws
           \<and> name \<noteq> [] \<and> list_all is_word name \<and> list_all is_space ws'))"
proof (intro conjI impI)
  assume a: "list_all is_space ws \<and> spec_identifier name \<and> list_all is_space ws'
      \<and> list_all (\<lambda>c. c \<noteq> CHR 0x0A) rest"
  then obtain x xs where name: "name = x # xs" and x: "is_word x" and xs: "list_all is_word xs"
    by (cases name)
       (auto simp: spec_identifier_def list_all_iff dest: spec_start_word spec_char_word)
  show "fullmatch label_prefix (ws @ name @ ws' @ CHR '':'' # rest) = Some [Some name, Some rest]"
    unfolding name using a x xs by (intro label_prefix_sufficient) simp_all
  assume "list_all is_space rest"
  then have "fullmatch bare_label (ws @ name @ ws' @ CHR '':'' # rest) = Some [Some name]"
    unfolding name using a x xs by (intro bare_label_sufficient) simp_all
  then show "section_label (ws @ name @ ws' @ CHR '':'' # rest) = Some name"
    by (simp add: section_label_def)
next
  assume "fullmatch label_prefix line \<noteq> None \<or> section_label line \<noteq> None"
  then have "fullmatch label_prefix line \<noteq> None \<or> fullmatch bare_label line \<noteq> None"
    by (auto simp: section_label_def)
  then obtain x xs rest where "dropWhile is_space line = x # xs" and "is_word x"
    and "dropWhile is_space (dropWhile is_word xs) = CHR '':'' # rest"
    unfolding fullmatch_label_prefix fullmatch_bare_label
    by (auto split: list.splits if_splits simp del: dropWhile_eq_Nil_conv)
  then show "\<exists>ws name ws' rest. line = ws @ name @ ws' @ CHR '':'' # rest \<and> list_all is_space ws
           \<and> name \<noteq> [] \<and> list_all is_word name \<and> list_all is_space ws'"
    by (rule label_shape_necessary)
qed

text \<open>
  The amended C5 at the lines \<^verbatim>\<open>foo: mov a, b\<close> (a declaration with a statement after it)
  and \<^verbatim>\<open>foo:\<close> followed by two spaces (a section boundary).
\<close>

theorem label_declaration_shape_witness:
  "list_all is_space [] \<and> spec_identifier ''foo''
   \<and> list_all (\<lambda>c. c \<noteq> CHR 0x0A) '' mov a, b''
   \<and> fullmatch label_prefix ''foo: mov a, b'' = Some [Some ''foo'', Some '' mov a, b'']
   \<and> list_all is_space ''  ''
   \<and> section_label ''foo:  '' = Some ''foo''
   \<and> (\<exists>ws name ws' rest. ''foo: mov a, b'' = ws @ name @ ws' @ CHR '':'' # rest
         \<and> list_all is_space ws \<and> name \<noteq> [] \<and> list_all is_word name \<and> list_all is_space ws')"
proof -
  have 1: "list_all is_space []" by simp
  have 2: "spec_identifier ''foo''" by code_simp
  have 3: "list_all (\<lambda>c. c \<noteq> CHR 0x0A) '' mov a, b''" by simp
  have 4: "list_all is_space ''  ''" by code_simp
  have 5: "list_all (\<lambda>c. c \<noteq> CHR 0x0A) ''  ''" by simp
  from label_declaration_shape [of "[]" "''foo''" "[]" "'' mov a, b''" "''foo: mov a, b''"] 1 2 3
  have a: "fullmatch label_prefix ''foo: mov a, b'' = Some [Some ''foo'', Some '' mov a, b'']"
    and b: "\<exists>ws name ws' rest. ''foo: mov a, b'' = ws @ name @ ws' @ CHR '':'' # rest
         \<and> list_all is_space ws \<and> name \<noteq> [] \<and> list_all is_word name \<and> list_all is_space ws'"
    by simp_all
  from label_declaration_shape [of "[]" "''foo''" "[]" "''  ''" "[]"] 1 2 4 5
  have c: "section_label ''foo:  '' = Some ''foo''"
    by simp
  show ?thesis
    using 1 2 3 4 a b c by simp
qed

section \<open>Capture groups of an instruction\<close>








section \<open>Label splitting\<close>













section \<open>Repeated calls\<close>








text \<open>
  Without the purity of the formatters the two calls may differ: the counting start
  formatter gives \<^verbatim>\<open>START a\<close> to the first call and \<^verbatim>\<open>START a!\<close> to the second.
\<close>

lemma counting_formatter_differs:
  "fst (assemble_w counting ''a:'' False 0) = Inr (Text ''START a\<newline>END a'')
   \<and> fst (assemble_w counting ''a:'' False (snd (assemble_w counting ''a:'' False 0)))
       = Inr (Text ''START a!\<newline>END a'')"
  by code_simp



section \<open>Empty prologue and epilogue\<close>

lemma join_Nil_iff: "list_all (\<lambda>t. t \<noteq> []) ts \<Longrightarrow> join ts = [] \<longleftrightarrow> ts = []"
  by (induction ts rule: join.induct) auto

lemma hd_join: "list_all (\<lambda>t. t \<noteq> []) ts \<Longrightarrow> ts \<noteq> [] \<Longrightarrow> hd (join ts) = hd (hd ts)"
  by (induction ts rule: join.induct) auto

lemma last_join: "list_all (\<lambda>t. t \<noteq> []) ts \<Longrightarrow> ts \<noteq> [] \<Longrightarrow> last (join ts) = last (last ts)"
  by (induction ts rule: join.induct) (auto simp: join_Nil_iff)

text \<open>
  C9. When the emitted list is \<open>res\<close>, the text returned is the join of the entries that
  are not empty. An empty prologue is dropped: the text is the join of the other
  entries; the same for an empty epilogue. And the text begins (ends) with a line feed
  only if some entry itself begins (ends) with one: no blank line comes from an empty
  prologue or epilogue.
\<close>

theorem empty_prologue_epilogue_dropped:
  assumes "emit a text = Inr res"
  shows "assemble a text False = Inr (Text (join_output a res))
   \<and> (start_formatter a = [] \<longrightarrow>
        join_output a res = join (filter (\<lambda>t. t \<noteq> []) (res @ [end_formatter a])))
   \<and> (end_formatter a = [] \<longrightarrow>
        join_output a res = join (filter (\<lambda>t. t \<noteq> []) (start_formatter a # res)))
   \<and> (list_all (\<lambda>t. t = [] \<or> hd t \<noteq> CHR 0x0A) (start_formatter a # res @ [end_formatter a])
        \<and> join_output a res \<noteq> [] \<longrightarrow> hd (join_output a res) \<noteq> CHR 0x0A)
   \<and> (list_all (\<lambda>t. t = [] \<or> last t \<noteq> CHR 0x0A) (start_formatter a # res @ [end_formatter a])
        \<and> join_output a res \<noteq> [] \<longrightarrow> last (join_output a res) \<noteq> CHR 0x0A)"
proof (intro conjI impI)
  let ?all = "start_formatter a # res @ [end_formatter a]"
  let ?kept = "filter (\<lambda>t. t \<noteq> []) ?all"
  have out: "join_output a res = join ?kept"
    by (simp add: join_output_def)
  have kept: "list_all (\<lambda>t. t \<noteq> []) ?kept"
    by (simp add: list_all_iff)
  show "assemble a text False = Inr (Text (join_output a res))"
    using assms by (simp add: assemble_def)
  show "join_output a res = join (filter (\<lambda>t. t \<noteq> []) (res @ [end_formatter a]))"
    if "start_formatter a = []"
    using that by (simp add: join_output_def)
  show "join_output a res = join (filter (\<lambda>t. t \<noteq> []) (start_formatter a # res))"
    if "end_formatter a = []"
    using that by (simp add: join_output_def)
  show "hd (join_output a res) \<noteq> CHR 0x0A"
    if h: "list_all (\<lambda>t. t = [] \<or> hd t \<noteq> CHR 0x0A) ?all \<and> join_output a res \<noteq> []"
  proof -
    from h have ne: "?kept \<noteq> []"
      unfolding out by auto
    then have "hd ?kept \<in> set ?kept"
      by (rule hd_in_set)
    then have "hd (hd ?kept) \<noteq> CHR 0x0A"
      using h by (auto simp: list_all_iff)
    then show ?thesis
      unfolding out using hd_join [OF kept ne] by simp
  qed
  show "last (join_output a res) \<noteq> CHR 0x0A"
    if h: "list_all (\<lambda>t. t = [] \<or> last t \<noteq> CHR 0x0A) ?all \<and> join_output a res \<noteq> []"
  proof -
    from h have ne: "?kept \<noteq> []"
      unfolding out by auto
    then have "last ?kept \<in> set ?kept"
      by (rule last_in_set)
    then have "last (last ?kept) \<noteq> CHR 0x0A"
      using h by (auto simp: list_all_iff)
    then show ?thesis
      unfolding out using last_join [OF kept ne] by simp
  qed
qed

text \<open>
  C9 at the bracketing assembler, whose prologue and epilogue are both empty, and the
  input \<^verbatim>\<open>sec1:\<close>, \<^verbatim>\<open>nop\<close>.
\<close>

theorem empty_prologue_epilogue_dropped_witness:
  "emit bracketing ''sec1:\<newline>nop'' = Inr [''START sec1'', ''NOP'', ''END sec1'']
   \<and> start_formatter bracketing = [] \<and> end_formatter bracketing = []
   \<and> assemble bracketing ''sec1:\<newline>nop'' False = Inr (Text ''START sec1\<newline>NOP\<newline>END sec1'')
   \<and> join_output bracketing [''START sec1'', ''NOP'', ''END sec1'']
       = join (filter (\<lambda>t. t \<noteq> []) ([''START sec1'', ''NOP'', ''END sec1''] @ [[]]))
   \<and> join_output bracketing [''START sec1'', ''NOP'', ''END sec1'']
       = join (filter (\<lambda>t. t \<noteq> []) ([] # [''START sec1'', ''NOP'', ''END sec1'']))
   \<and> hd (join_output bracketing [''START sec1'', ''NOP'', ''END sec1'']) \<noteq> CHR 0x0A
   \<and> last (join_output bracketing [''START sec1'', ''NOP'', ''END sec1'']) \<noteq> CHR 0x0A"
proof -
  let ?res = "[''START sec1'', ''NOP'', ''END sec1'']"
  have 1: "emit bracketing ''sec1:\<newline>nop'' = Inr ?res" by code_simp
  have 2: "start_formatter bracketing = []" "end_formatter bracketing = []"
    by (simp_all add: bracketing_def)
  have 3: "list_all (\<lambda>t. t = [] \<or> hd t \<noteq> CHR 0x0A)
             (start_formatter bracketing # ?res @ [end_formatter bracketing])"
    "list_all (\<lambda>t. t = [] \<or> last t \<noteq> CHR 0x0A)
       (start_formatter bracketing # ?res @ [end_formatter bracketing])"
    by (simp_all add: 2)
  have 4: "join_output bracketing ?res = ''START sec1\<newline>NOP\<newline>END sec1''"
    by code_simp
  show ?thesis
    using empty_prologue_epilogue_dropped [OF 1] 1 2 3 4 by simp
qed

section \<open>Mnemonic and first argument\<close>




end
